theory Spec2Isabelle
  imports Complex_Main
begin

section \<open>Python values used by the benchmark scripts\<close>

text \<open>
  The scripts are Python. Integers are unbounded (\<open>int\<close>). The result of Python's true
  division \<open>/\<close> is a float; it is modelled by the exact quotient in \<open>rat\<close>, so rounding
  to 53 bits is not part of the model. An exception is a value of \<open>exn\<close>, and a call that
  may raise returns \<open>exn + 'a\<close> with \<open>Inl\<close> for the raised exception.
\<close>

datatype exn =
    ZeroDivisionError
  | AttributeError
  | URLError
  | JSONDecodeError
  | TimeoutError
  | TimeoutExpired

definition py_truediv :: "rat \<Rightarrow> rat \<Rightarrow> exn + rat" where
  "py_truediv a b = (if b = 0 then Inl ZeroDivisionError else Inr (a / b))"

definition py_floordiv :: "int \<Rightarrow> int \<Rightarrow> exn + int" where
  "py_floordiv a b = (if b = 0 then Inl ZeroDivisionError else Inr (a div b))"


section \<open>BenchmarkResult and its derived metrics (benchmark\_computation.py)\<close>

record BenchmarkResult =
  user_count :: int
  batch_size :: int
  create_pool_cu :: int
  setup_users_total_cu :: int
  deposit_cus :: "int list"
  fund_lottery_cu :: int
  start_draw_cu :: int
  batch_cus :: "int list"
  request_randomness_cu :: int
  complete_draw_cu :: int

definition total_deposit_cu :: "BenchmarkResult \<Rightarrow> int" where
  "total_deposit_cu r = sum_list (deposit_cus r)"

definition avg_deposit_cu :: "BenchmarkResult \<Rightarrow> exn + rat" where
  "avg_deposit_cu r =
     (if deposit_cus r \<noteq> []
      then py_truediv (of_int (total_deposit_cu r)) (of_nat (length (deposit_cus r)))
      else Inr 0)"

definition total_batch_cu :: "BenchmarkResult \<Rightarrow> int" where
  "total_batch_cu r = sum_list (batch_cus r)"

definition avg_batch_cu :: "BenchmarkResult \<Rightarrow> exn + rat" where
  "avg_batch_cu r =
     (if batch_cus r \<noteq> []
      then py_truediv (of_int (total_batch_cu r)) (of_nat (length (batch_cus r)))
      else Inr 0)"

definition per_user_batch_cu :: "BenchmarkResult \<Rightarrow> exn + rat" where
  "per_user_batch_cu r =
     (if user_count r > 0
      then py_truediv (of_int (total_batch_cu r)) (of_int (user_count r))
      else Inr 0)"

definition total_draw_cu :: "BenchmarkResult \<Rightarrow> int" where
  "total_draw_cu r =
     start_draw_cu r + total_batch_cu r + request_randomness_cu r + complete_draw_cu r"

text \<open>
  The two averages that \<open>run_full_draw_benchmark\<close> (benchmark\_draw\_computation.py)
  derives after its batch loop.
\<close>

definition avg_per_batch :: "int \<Rightarrow> int \<Rightarrow> exn + rat" where
  "avg_per_batch total_batch_computation batch_count =
     (if batch_count > 0
      then py_truediv (of_int total_batch_computation) (of_int batch_count)
      else Inr 0)"

definition avg_per_user :: "int \<Rightarrow> int \<Rightarrow> exn + rat" where
  "avg_per_user total_batch_computation users =
     (if users > 0
      then py_truediv (of_int total_batch_computation) (of_int users)
      else Inr 0)"

section \<open>Computation reports\<close>

text \<open>
  The emulator's report is \<open>{"transactions": {id: {"computation": int, "memory": int}}}\<close>.
  A Python dict keeps its keys in insertion order, so the transactions are an association
  list. \<open>None\<close> stands for a report without the key \<open>transactions\<close>, which includes the
  empty report \<open>{}\<close> that the fetch functions return when they have no data. A field of an
  entry is \<open>None\<close> when the entry has no such key.
\<close>

record tx_entry =
  entry_computation :: "int option"
  entry_memory :: "int option"

type_synonym transactions = "(string \<times> tx_entry) list"

type_synonym report = "transactions option"

text \<open>Truthiness of an \<open>Optional[str]\<close>: neither \<open>None\<close> nor the empty string.\<close>

fun truthy_str :: "string option \<Rightarrow> bool" where
  "truthy_str None = False"
| "truthy_str (Some s) = (s \<noteq> [])"

text \<open>Truthiness of an \<open>Optional[int]\<close>: neither \<open>None\<close> nor 0.\<close>

fun truthy_int :: "int option \<Rightarrow> bool" where
  "truthy_int None = False"
| "truthy_int (Some n) = (n \<noteq> 0)"

text \<open>\<open>d.get(key, 0)\<close> on an entry.\<close>

definition get_or_0 :: "int option \<Rightarrow> int" where
  "get_or_0 v = (case v of None \<Rightarrow> 0 | Some n \<Rightarrow> n)"

subsection \<open>Strings: \<open>lower()\<close> and the \<open>in\<close> test\<close>

text \<open>
  Strings are lists of bytes; \<open>lower()\<close> is modelled on the ASCII letters, which is what
  the patterns the scripts look for consist of. An upper-case letter has a code from 65
  to 90, and its lower-case letter is 32 higher: the same byte with bit 5 set.
\<close>

definition lower_char :: "char \<Rightarrow> char" where
  "lower_char c =
     (if 65 \<le> (of_char c :: nat) \<and> (of_char c :: nat) \<le> 90
      then (case c of Char b0 b1 b2 b3 b4 b5 b6 b7 \<Rightarrow> Char b0 b1 b2 b3 b4 True b6 b7)
      else c)"

definition lower :: "string \<Rightarrow> string" where
  "lower s = map lower_char s"

fun startswith :: "string \<Rightarrow> string \<Rightarrow> bool" where
  "startswith s [] = True"
| "startswith [] (p # ps) = False"
| "startswith (c # cs) (p # ps) = (c = p \<and> startswith cs ps)"

text \<open>\<open>contains sub s\<close> is Python's \<open>sub in s\<close>.\<close>

fun contains :: "string \<Rightarrow> string \<Rightarrow> bool" where
  "contains sub [] = (sub = [])"
| "contains sub (c # cs) = (startswith (c # cs) sub \<or> contains sub cs)"

subsection \<open>Fetching the report\<close>

text \<open>
  \<open>get_computation_report\<close> of benchmark\_computation.py:
  \<^verbatim>\<open>
    try:
        with urllib.request.urlopen(url, timeout=5) as response:
            return json.loads(response.read().decode())
    except urllib.error.URLError as e:
        print(...); return {}
    except json.JSONDecodeError:
        return {}
  \<close>
  The argument \<open>fetch\<close> is what \<open>urlopen(...)\<close>, \<open>read()\<close> and \<open>decode()\<close> do: they raise, or
  give the body text. \<open>json_loads\<close> is the JSON library, a parameter. Only the two
  exception classes named by the handlers are absorbed; any other exception leaves the
  function. urllib wraps a failure to connect in \<open>URLError\<close>; a socket timeout while the
  response is awaited or read is raised as \<open>TimeoutError\<close> (\<open>socket.timeout\<close>), which is
  not a \<open>URLError\<close>.
\<close>

definition get_computation_report ::
  "(string \<Rightarrow> exn + report) \<Rightarrow> exn + string \<Rightarrow> exn + report" where
  "get_computation_report json_loads fetch =
     (case (case fetch of Inl e \<Rightarrow> Inl e | Inr body \<Rightarrow> json_loads body) of
        Inr r \<Rightarrow> Inr r
      | Inl URLError \<Rightarrow> Inr None
      | Inl JSONDecodeError \<Rightarrow> Inr None
      | Inl e \<Rightarrow> Inl e)"

text \<open>
  \<open>get_computation_report\<close> of benchmark\_draw\_computation.py runs curl in a
  subprocess and has one handler, \<open>except Exception\<close>. \<open>curl\<close> is what \<open>subprocess.run\<close>
  does: it raises, or gives the exit code and the standard output.
\<close>

definition get_computation_report_curl ::
  "(string \<Rightarrow> exn + report) \<Rightarrow> exn + (int \<times> string) \<Rightarrow> exn + report" where
  "get_computation_report_curl json_loads curl =
     (case curl of
        Inl e \<Rightarrow> Inr None
      | Inr (returncode, stdout) \<Rightarrow>
          if returncode = 0 \<and> stdout \<noteq> []
          then (case json_loads stdout of Inl e \<Rightarrow> Inr None | Inr r \<Rightarrow> Inr r)
          else Inr None)"

text \<open>
  \<open>get_computation_for_tx\<close> of benchmark\_lazy\_users.py: the same curl call under a bare
  \<open>except\<close>, then \<open>report.get('transactions', {}).get(tx_id, {}).get('computation', 0)\<close>.
\<close>

definition get_computation_for_tx ::
  "(string \<Rightarrow> exn + report) \<Rightarrow> string \<Rightarrow> exn + (int \<times> string) \<Rightarrow> exn + int" where
  "get_computation_for_tx json_loads tx_id curl =
     (case curl of
        Inl e \<Rightarrow> Inr 0
      | Inr (returncode, stdout) \<Rightarrow>
          if returncode = 0 \<and> stdout \<noteq> []
          then (case json_loads stdout of
                  Inl e \<Rightarrow> Inr 0
                | Inr r \<Rightarrow>
                    (case map_of (case r of None \<Rightarrow> [] | Some txs \<Rightarrow> txs) tx_id of
                       None \<Rightarrow> Inr 0
                     | Some d \<Rightarrow> Inr (get_or_0 (entry_computation d))))
          else Inr 0)"

subsection \<open>Resolving an operation id in a report\<close>

text \<open>
  \<open>get_transaction_computation\<close> of benchmark\_computation.py, on the report already
  fetched: no id gives \<open>None\<close>; an exact key match first; then the first key that contains
  the id or is contained in it, ignoring case.
\<close>

fun partial_match :: "string \<Rightarrow> transactions \<Rightarrow> int option" where
  "partial_match tx_id [] = None"
| "partial_match tx_id ((key, d) # rest) =
     (if contains (lower tx_id) (lower key) \<or> contains (lower key) (lower tx_id)
      then entry_computation d
      else partial_match tx_id rest)"

definition get_transaction_computation :: "string option \<Rightarrow> report \<Rightarrow> int option" where
  "get_transaction_computation tx_id rep =
     (case tx_id of
        None \<Rightarrow> None
      | Some i \<Rightarrow>
          if i = [] then None
          else (let txs = (case rep of None \<Rightarrow> [] | Some t \<Rightarrow> t) in
                case map_of txs i of
                  Some d \<Rightarrow> entry_computation d
                | None \<Rightarrow> partial_match i txs))"

text \<open>
  The correlation loop of \<open>execute_draw_phase\<close> (benchmark\_draw\_computation.py):
  \<^verbatim>\<open>
    for tid, data in report.get('transactions', {}).items():
        if tx_id and tid == tx_id:
            computation = data.get('computation', 0); memory = data.get('memory', 0); break
        elif len(report.get('transactions', {})) == 1:
            computation = data.get('computation', 0); memory = data.get('memory', 0); break
  \<close>
  \<open>n\<close> is the number of entries of the whole report.
\<close>

fun correlate :: "string option \<Rightarrow> nat \<Rightarrow> transactions \<Rightarrow> int \<times> int" where
  "correlate tx_id n [] = (0, 0)"
| "correlate tx_id n ((tid, d) # rest) =
     (if truthy_str tx_id \<and> Some tid = tx_id
      then (get_or_0 (entry_computation d), get_or_0 (entry_memory d))
      else if n = 1
      then (get_or_0 (entry_computation d), get_or_0 (entry_memory d))
      else correlate tx_id n rest)"

record ComputationResult =
  tx_name :: string
  cr_success :: bool
  cr_computation :: int
  cr_memory :: int
  cr_tx_id :: string
  cr_error :: "string option"


section \<open>The execution client\<close>

subsection \<open>\<open>run_transaction\<close> (benchmark\_computation.py)\<close>

text \<open>The fields \<open>output\<close> and \<open>error\<close> of the source are \<open>tx_output\<close> and \<open>tx_error\<close> here.\<close>

record TransactionResult =
  success :: bool
  computation :: "int option"
  tx_id :: "string option"
  tx_output :: string
  tx_error :: string

text \<open>
  \<open>proc\<close> is what \<open>run_command\<close> does: \<open>subprocess.run\<close> raises (it has a timeout of 300
  seconds and no handler), or gives the exit code, the standard output and the standard
  error. \<open>parse_tx_id\<close> is the pair of regular-expression searches of the source, a
  parameter. \<open>rep\<close> is what \<open>get_computation_report\<close> gives; it is asked only when there is
  an id and the transaction succeeded. The printing at the end of the source function has
  no effect on the returned value and is left out.
\<close>

definition run_transaction ::
  "(string \<Rightarrow> string option) \<Rightarrow> exn + (int \<times> string \<times> string) \<Rightarrow> exn + report
     \<Rightarrow> exn + TransactionResult" where
  "run_transaction parse_tx_id proc rep =
     (case proc of
        Inl e \<Rightarrow> Inl e
      | Inr (returncode, stdout, stderr) \<Rightarrow>
          let combined_output = stdout @ stderr;
              tid = parse_tx_id combined_output;
              ok0 = (returncode = 0);
              ok1 = (if contains ''error'' (lower combined_output) \<and>
                        contains ''error:'' (lower combined_output)
                     then False else ok0);
              ok2 = (if contains ''panic'' (lower combined_output) \<or>
                        contains ''revert'' (lower combined_output)
                     then False else ok1)
          in if truthy_str tid \<and> ok2
             then (case rep of
                     Inl e \<Rightarrow> Inl e
                   | Inr r \<Rightarrow>
                       Inr \<lparr>success = ok2, computation = get_transaction_computation tid r,
                            tx_id = tid, tx_output = stdout, tx_error = stderr\<rparr>)
             else Inr \<lparr>success = ok2, computation = None, tx_id = tid,
                       tx_output = stdout, tx_error = stderr\<rparr>)"

subsection \<open>\<open>run_flow_tx\<close> (benchmark\_draw\_computation.py)\<close>

text \<open>What \<open>json.loads\<close> returns.\<close>

datatype json =
    JNull
  | JBool bool
  | JInt int
  | JFloat rat
  | JStr string
  | JList "json list"
  | JDict "(string \<times> json) list"

fun truthy :: "json \<Rightarrow> bool" where
  "truthy JNull = False"
| "truthy (JBool b) = b"
| "truthy (JInt n) = (n \<noteq> 0)"
| "truthy (JFloat x) = (x \<noteq> 0)"
| "truthy (JStr s) = (s \<noteq> [])"
| "truthy (JList xs) = (xs \<noteq> [])"
| "truthy (JDict kvs) = (kvs \<noteq> [])"

text \<open>\<open>d.get(key, default)\<close>; \<open>d.get(key)\<close> is \<open>dict_get d key JNull\<close>.\<close>

definition dict_get :: "(string \<times> json) list \<Rightarrow> string \<Rightarrow> json \<Rightarrow> json" where
  "dict_get d key dflt = (case map_of d key of None \<Rightarrow> dflt | Some v \<Rightarrow> v)"

text \<open>
  The source returns \<open>(success, output, tx_id, computation)\<close>; the model returns the first
  two components, which are the classification. \<open>run_command\<close> of this file catches every
  exception of the subprocess and returns \<open>(-1, "", message)\<close>, so its result is always a
  triple. \<open>json_loads\<close> and \<open>py_str\<close> (Python's \<open>str\<close>) are parameters. Only
  \<open>JSONDecodeError\<close> is handled; a parsed value that is not a dict has no \<open>get\<close>, which
  raises \<open>AttributeError\<close>.
  \<^verbatim>\<open>
    try:
        result = json.loads(stdout)
        ...
        success = result.get('status') == 'SEALED' or result.get('statusString') == 'SEALED'
        if not success:
            error = result.get('error', result.get('errorMessage', ''))
            if error:
                return False, str(error), tx_id, computation
    except json.JSONDecodeError:
        output = stdout + stderr
        ...
        success = code == 0 and 'error' not in output.lower() and 'panic' not in output.lower()
        return success, stdout + stderr, tx_id, computation
    return True, stdout, tx_id, computation
  \<close>
\<close>

definition run_flow_tx ::
  "(string \<Rightarrow> exn + json) \<Rightarrow> (json \<Rightarrow> string) \<Rightarrow> int \<times> string \<times> string
     \<Rightarrow> exn + (bool \<times> string)" where
  "run_flow_tx json_loads py_str proc =
     (case proc of (code, stdout, stderr) \<Rightarrow>
        (case json_loads stdout of
           Inl JSONDecodeError \<Rightarrow>
             (let out = stdout @ stderr
              in Inr (code = 0 \<and> \<not> contains ''error'' (lower out) \<and>
                        \<not> contains ''panic'' (lower out),
                      stdout @ stderr))
         | Inl e \<Rightarrow> Inl e
         | Inr (JDict result) \<Rightarrow>
             (let sealed = (dict_get result ''status'' JNull = JStr ''SEALED'' \<or>
                            dict_get result ''statusString'' JNull = JStr ''SEALED'')
              in if \<not> sealed
                 then (let err = dict_get result ''error''
                                   (dict_get result ''errorMessage'' (JStr []))
                       in if truthy err then Inr (False, py_str err) else Inr (True, stdout))
                 else Inr (True, stdout))
         | Inr _ \<Rightarrow> Inl AttributeError))"

section \<open>The batch-processing loops\<close>

text \<open>
  Each driver issues the batch operation in a loop. The operation and the status query are
  calls to the outside: \<open>tx k\<close>, \<open>ex k\<close> and \<open>st k\<close> are what the call made in iteration
  \<open>k\<close> (counted from 0) does, which is to raise or to return. No driver has an exception
  handler around its loop, so an exception raised by a call leaves the loop.

  The last component of a loop's result says how the loop was left. The source has no such
  variable; it records which \<open>break\<close>, \<open>return\<close> or loop test ended the loop.
\<close>

datatype loop_exit = Completed | CeilingExhausted | OperationFailed | AlreadyComplete

subsection \<open>Step 7 of \<open>run_multi_user_benchmark\<close> (benchmark\_computation.py)\<close>

text \<open>
  \<^verbatim>\<open>
    batch_num = 0
    max_batches = (user_count // batch_size) + 10
    while batch_num < max_batches:
        batch_result = run_transaction(...)
        if batch_result.computation:
            result.batch_cus.append(batch_result.computation)
        batch_num += 1
        if is_batch_complete(pool_id):
            break
  \<close>
  The result is \<open>batch_num\<close>, the list \<open>batch_cus\<close> and the exit.
\<close>

function batch_loop_multi ::
  "(nat \<Rightarrow> exn + TransactionResult) \<Rightarrow> (nat \<Rightarrow> exn + bool) \<Rightarrow> int \<Rightarrow> nat \<Rightarrow> int list
     \<Rightarrow> exn + (nat \<times> int list \<times> loop_exit)" where
  "batch_loop_multi tx st max_batches batch_num cus =
     (if int batch_num < max_batches
      then (case tx batch_num of
              Inl e \<Rightarrow> Inl e
            | Inr batch_result \<Rightarrow>
                (case st batch_num of
                   Inl e \<Rightarrow> Inl e
                 | Inr is_complete \<Rightarrow>
                     if is_complete
                     then Inr (batch_num + 1,
                               (case computation batch_result of
                                  None \<Rightarrow> cus
                                | Some c \<Rightarrow> if c \<noteq> 0 then cus @ [c] else cus),
                               Completed)
                     else batch_loop_multi tx st max_batches (batch_num + 1)
                            (case computation batch_result of
                               None \<Rightarrow> cus
                             | Some c \<Rightarrow> if c \<noteq> 0 then cus @ [c] else cus)))
      else Inr (batch_num, cus, CeilingExhausted))"
  by pat_completeness auto
termination
  by (relation "measure (\<lambda>(tx, st, max_batches, batch_num, cus). nat (max_batches - int batch_num))")
     auto

declare batch_loop_multi.simps [simp del]

definition process_batches_multi ::
  "(nat \<Rightarrow> exn + TransactionResult) \<Rightarrow> (nat \<Rightarrow> exn + bool) \<Rightarrow> int \<Rightarrow> int
     \<Rightarrow> exn + (nat \<times> int list \<times> loop_exit)" where
  "process_batches_multi tx st users batch =
     (case py_floordiv users batch of
        Inl e \<Rightarrow> Inl e
      | Inr q \<Rightarrow> batch_loop_multi tx st (q + 10) 0 [])"

subsection \<open>Phase 2 of \<open>run_full_draw_benchmark\<close> (benchmark\_draw\_computation.py)\<close>

text \<open>
  \<^verbatim>\<open>
    batch_computations = []; batch_count = 0; total_batch_computation = 0
    max_batches = (user_count // batch_size) + 5  # Safety limit
    while batch_count < max_batches:
        batch_count += 1
        result = execute_draw_phase(...)
        if not result.success:
            print_error(...)
            break
        batch_computations.append(result.computation)
        total_batch_computation += result.computation
        status = get_draw_status(pool_id)
        is_batch_complete = status.get('isBatchComplete', False)
        if is_batch_complete:
            break
  \<close>
  The result is \<open>batch_computations\<close>, \<open>batch_count\<close>, \<open>total_batch_computation\<close> and the
  exit.
\<close>

function batch_loop_full ::
  "(nat \<Rightarrow> exn + ComputationResult) \<Rightarrow> (nat \<Rightarrow> exn + bool) \<Rightarrow> int \<Rightarrow> nat \<Rightarrow> int list \<Rightarrow> int
     \<Rightarrow> exn + (int list \<times> nat \<times> int \<times> loop_exit)" where
  "batch_loop_full ex st max_batches batch_count comps total_batch_computation =
     (if int batch_count < max_batches
      then (case ex batch_count of
              Inl e \<Rightarrow> Inl e
            | Inr result \<Rightarrow>
                if \<not> cr_success result
                then Inr (comps, batch_count + 1, total_batch_computation, OperationFailed)
                else (case st batch_count of
                        Inl e \<Rightarrow> Inl e
                      | Inr is_batch_complete \<Rightarrow>
                          if is_batch_complete
                          then Inr (comps @ [cr_computation result], batch_count + 1,
                                    total_batch_computation + cr_computation result, Completed)
                          else batch_loop_full ex st max_batches (batch_count + 1)
                                 (comps @ [cr_computation result])
                                 (total_batch_computation + cr_computation result)))
      else Inr (comps, batch_count, total_batch_computation, CeilingExhausted))"
  by pat_completeness auto
termination
  by (relation "measure (\<lambda>(ex, st, max_batches, batch_count, comps, total_batch_computation).
                   nat (max_batches - int batch_count))")
     auto

declare batch_loop_full.simps [simp del]

definition process_batches_full ::
  "(nat \<Rightarrow> exn + ComputationResult) \<Rightarrow> (nat \<Rightarrow> exn + bool) \<Rightarrow> int \<Rightarrow> int
     \<Rightarrow> exn + (int list \<times> nat \<times> int \<times> loop_exit)" where
  "process_batches_full ex st users batch =
     (case py_floordiv users batch of
        Inl e \<Rightarrow> Inl e
      | Inr q \<Rightarrow> batch_loop_full ex st (q + 5) 0 [] 0)"

subsection \<open>\<open>run_full_draw_benchmark\<close> as a whole\<close>






subsection \<open>The loop of \<open>benchmark_process_draw_batch\<close> (benchmark\_lazy\_users.py)\<close>

text \<open>
  \<^verbatim>\<open>
    total_batch_comp = 0; batch_count = 0
    for _ in range(100):  # Max iterations to prevent infinite loop
        success, output, tx_id, batch_comp = run_flow_tx(...)
        if not success:
            if "batch processing already complete" in output.lower() \
                    or "already complete" in output.lower():
                break
            return None
        total_batch_comp += batch_comp
        batch_count += 1
        if '"remaining":0' in output.replace(' ', '') or 'remaining: 0' in output.lower():
            break
    ...
    return total_batch_comp
  \<close>
  \<open>tx k\<close> gives the success flag, the output and the computation of the call (the id is not
  used). The result is the returned value (\<open>None\<close> for \<open>return None\<close>), the number of
  operations issued, \<open>batch_count\<close> and the exit. \<open>run_flow_tx\<close> of this file calls
  \<open>subprocess.run\<close> with a timeout and no handler, so the call may raise.
\<close>

definition already_complete :: "string \<Rightarrow> bool" where
  "already_complete out =
     (contains ''batch processing already complete'' (lower out) \<or>
      contains ''already complete'' (lower out))"

definition remaining_zero :: "string \<Rightarrow> bool" where
  "remaining_zero out =
     (contains (CHR 0x22 # ''remaining'' @ CHR 0x22 # '':0'') (filter (\<lambda>c. c \<noteq> CHR '' '') out) \<or>
      contains ''remaining: 0'' (lower out))"

function lazy_batch_loop ::
  "(nat \<Rightarrow> exn + (bool \<times> string \<times> int)) \<Rightarrow> nat \<Rightarrow> int \<Rightarrow> nat
     \<Rightarrow> exn + (int option \<times> nat \<times> nat \<times> loop_exit)" where
  "lazy_batch_loop tx i total_batch_comp batch_count =
     (if i < 100
      then (case tx i of
              Inl e \<Rightarrow> Inl e
            | Inr (ok, out, batch_comp) \<Rightarrow>
                if \<not> ok
                then (if already_complete out
                      then Inr (Some total_batch_comp, i + 1, batch_count, AlreadyComplete)
                      else Inr (None, i + 1, batch_count, OperationFailed))
                else if remaining_zero out
                then Inr (Some (total_batch_comp + batch_comp), i + 1, batch_count + 1,
                          Completed)
                else lazy_batch_loop tx (i + 1) (total_batch_comp + batch_comp)
                       (batch_count + 1))
      else Inr (Some total_batch_comp, i, batch_count, CeilingExhausted))"
  by pat_completeness auto
termination
  by (relation "measure (\<lambda>(tx, i, total_batch_comp, batch_count). 100 - i)") auto

declare lazy_batch_loop.simps [simp del]

section \<open>The limit finder: \<open>find_batch_limit\<close> (benchmark\_computation.py)\<close>











section \<open>Variability analysis\<close>

text \<open>
  The analysis at the end of \<open>main\<close> (benchmark\_draw\_computation.py), on the list
  \<open>all_computations\<close>. It runs for two values or more. \<open>high_variance\<close> says which of the
  two closing messages is printed.
  \<^verbatim>\<open>
    if len(all_computations) > 1:
        min_comp = min(all_computations)
        max_comp = max(all_computations)
        avg_comp = sum(all_computations) / len(all_computations)
        variance_ratio = max_comp / min_comp if min_comp > 0 else 0
        ...
        if variance_ratio > 2:
            print("High variance detected! ...")
        else:
            print("Computation is stable ...")
  \<close>
\<close>

record variability =
  min_comp :: int
  max_comp :: int
  avg_comp :: rat
  variance_ratio :: rat
  high_variance :: bool

definition variability_analysis :: "int list \<Rightarrow> variability option" where
  "variability_analysis all_computations =
     (case all_computations of
        [] \<Rightarrow> None
      | x # xs \<Rightarrow>
          if length all_computations > 1
          then (let lo = fold min xs x;
                    hi = fold max xs x;
                    ratio = (if lo > 0 then of_int hi / of_int lo else 0)
                in Some \<lparr>min_comp = lo, max_comp = hi,
                         avg_comp = of_int (sum_list all_computations)
                                    / of_nat (length all_computations),
                         variance_ratio = ratio, high_variance = (ratio > 2)\<rparr>)
          else None)"

text \<open>
  \<open>print_variability_summary\<close> (benchmark\_complete\_draw.py), on the list
  \<open>computations\<close>. It prints the statistics, and a warning when \<open>high_count\<close> is positive.
  \<^verbatim>\<open>
    if not computations:
        print_error("No valid results to analyze"); return
    low_count = sum(1 for c in computations if c < 1000)
    high_count = sum(1 for c in computations if c > 5000)
    ...
    print(f"  Min:     {min(computations)}")
    print(f"  Max:     {max(computations)}")
    print(f"  Mean:    {sum(computations) / len(computations):.1f}")
    print(f"  Range:   {max(computations) - min(computations)}")
    print(f"  Ratio:   {max(computations) / max(min(computations), 1):.1f}x")
    ...
    if high_count > 0:
        print_warning(...)
  \<close>
\<close>

record variability_summary =
  stat_min :: int
  stat_max :: int
  stat_mean :: rat
  stat_range :: int
  stat_ratio :: rat
  low_count :: nat
  high_count :: nat
  warned :: bool

definition print_variability_summary :: "int list \<Rightarrow> variability_summary option" where
  "print_variability_summary computations =
     (case computations of
        [] \<Rightarrow> None
      | x # xs \<Rightarrow>
          Some \<lparr>stat_min = fold min xs x, stat_max = fold max xs x,
                stat_mean = of_int (sum_list computations) / of_nat (length computations),
                stat_range = fold max xs x - fold min xs x,
                stat_ratio = of_int (fold max xs x) / of_int (max (fold min xs x) 1),
                low_count = length (filter (\<lambda>c. c < 1000) computations),
                high_count = length (filter (\<lambda>c. c > 5000) computations),
                warned = (length (filter (\<lambda>c. c > 5000) computations) > 0)\<rparr>)"

subsection \<open>An example run\<close>



section \<open>Derived metrics never divide by zero\<close>

lemma py_truediv_nonzero: "b \<noteq> 0 \<Longrightarrow> py_truediv a b = Inr (a / b)"
  by (simp add: py_truediv_def)

text \<open>
  C10. Every derived metric of a benchmark record returns a value and never raises
  ZeroDivisionError: \<open>avg_deposit_cu\<close> is 0 on an empty deposit list, \<open>avg_batch_cu\<close> is 0
  on an empty batch list, \<open>per_user_batch_cu\<close> is 0 when \<open>user_count\<close> is 0, and the two
  averages of \<open>run_full_draw_benchmark\<close> are guarded in the same way.
\<close>

theorem derived_metrics_total:
  "(\<exists>v. avg_deposit_cu r = Inr v) \<and>
   (\<exists>v. avg_batch_cu r = Inr v) \<and>
   (\<exists>v. per_user_batch_cu r = Inr v) \<and>
   (\<exists>v. avg_per_batch t c = Inr v) \<and>
   (\<exists>v. avg_per_user t u = Inr v) \<and>
   (deposit_cus r = [] \<longrightarrow> avg_deposit_cu r = Inr 0) \<and>
   (batch_cus r = [] \<longrightarrow> avg_batch_cu r = Inr 0) \<and>
   (user_count r = 0 \<longrightarrow> per_user_batch_cu r = Inr 0)"
  by (simp add: avg_deposit_cu_def avg_batch_cu_def per_user_batch_cu_def
      avg_per_batch_def avg_per_user_def py_truediv_def)

theorem derived_metrics_total_witness:
  "avg_deposit_cu \<lparr>user_count = 0, batch_size = 50, create_pool_cu = 0,
       setup_users_total_cu = 0, deposit_cus = [], fund_lottery_cu = 0, start_draw_cu = 0,
       batch_cus = [], request_randomness_cu = 0, complete_draw_cu = 0\<rparr> = Inr 0 \<and>
   avg_batch_cu \<lparr>user_count = 0, batch_size = 50, create_pool_cu = 0,
       setup_users_total_cu = 0, deposit_cus = [], fund_lottery_cu = 0, start_draw_cu = 0,
       batch_cus = [], request_randomness_cu = 0, complete_draw_cu = 0\<rparr> = Inr 0 \<and>
   per_user_batch_cu \<lparr>user_count = 0, batch_size = 50, create_pool_cu = 0,
       setup_users_total_cu = 0, deposit_cus = [], fund_lottery_cu = 0, start_draw_cu = 0,
       batch_cus = [], request_randomness_cu = 0, complete_draw_cu = 0\<rparr> = Inr 0"
  using derived_metrics_total [of "\<lparr>user_count = 0, batch_size = 50, create_pool_cu = 0,
       setup_users_total_cu = 0, deposit_cus = [], fund_lottery_cu = 0, start_draw_cu = 0,
       batch_cus = [], request_randomness_cu = 0, complete_draw_cu = 0\<rparr>" 0 0 0]
  by simp

section \<open>Resolving an operation id\<close>



lemma correlate_single:
  "correlate tid 1 [(k, d)] = (get_or_0 (entry_computation d), get_or_0 (entry_memory d))"
  by simp





section \<open>Failures of the report query\<close>

lemma get_computation_report_absorbs:
  "get_computation_report json_loads (Inl URLError) = Inr None"
  "json_loads body = Inl JSONDecodeError \<Longrightarrow>
     get_computation_report json_loads (Inr body) = Inr None"
  by (simp_all add: get_computation_report_def)

lemma get_computation_report_curl_returns:
  "\<exists>r. get_computation_report_curl json_loads curl = Inr r"
  by (auto simp: get_computation_report_curl_def split: sum.splits prod.splits)

lemma get_computation_for_tx_returns:
  "\<exists>n. get_computation_for_tx json_loads tid curl = Inr n"
  by (auto simp: get_computation_for_tx_def split: sum.splits prod.splits option.splits)

text \<open>
  C9. The two curl-based queries return "no data" on every exception. The query of
  benchmark\_computation.py does so for \<open>URLError\<close> and \<open>JSONDecodeError\<close> only: a timeout
  raised while the response is awaited or read is a \<open>TimeoutError\<close>, which neither handler
  names, and it leaves \<open>get_computation_report\<close> as an exception.
\<close>

theorem report_timeout_escapes:
  "get_computation_report json_loads (Inl TimeoutError) = Inl TimeoutError \<and>
   get_computation_report json_loads (Inl URLError) = Inr None \<and>
   get_computation_report_curl json_loads (Inl TimeoutExpired) = Inr None \<and>
   get_computation_for_tx json_loads tid (Inl TimeoutExpired) = Inr 0"
  by (simp add: get_computation_report_def get_computation_report_curl_def
      get_computation_for_tx_def)

section \<open>Classifying the outcome of an operation\<close>

lemma startswith_append: "startswith s (p @ q) \<Longrightarrow> startswith s p"
  by (induction s p rule: startswith.induct) auto

lemma contains_append: "contains (p @ q) s \<Longrightarrow> contains p s"
  by (induction s) (auto dest: startswith_append)

lemma contains_error_colon: "contains ''error:'' s \<Longrightarrow> contains ''error'' s"
  using contains_append [of "''error''" "'':''" s] by simp

text \<open>
  C7, as the claim states it, fails for \<open>run_flow_tx\<close>: once the standard output parses as
  a JSON object, neither the raw text nor the exit status is looked at. Here the parsed
  response says \<open>SEALED\<close>, the exit status is 1 and the standard error holds the marker
  \<open>panic\<close>; the result is a success.
\<close>

theorem sealed_json_hides_panic:
  \<open>run_flow_tx
     (\<lambda>s. if s = ''{"status": "SEALED"}''
          then Inr (JDict [(''status'', JStr ''SEALED'')]) else Inl JSONDecodeError)
     (\<lambda>j. []) (1, ''{"status": "SEALED"}'', ''panic: fatal error'')
   = Inr (True, ''{"status": "SEALED"}'') \<and>
   contains ''panic'' (lower (''{"status": "SEALED"}'' @ ''panic: fatal error''))\<close>
  by (simp add: run_flow_tx_def dict_get_def lower_def lower_char_def)

text \<open>
  C7, amended. \<open>run_flow_tx\<close>: when the standard output parses as a JSON object, the result
  is a failure carrying the declared message exactly when neither \<open>status\<close> nor
  \<open>statusString\<close> is \<open>SEALED\<close> and the \<open>error\<close> field (or, without it, \<open>errorMessage\<close>) is
  truthy; otherwise it is a success, whatever the exit status and the raw text. When the
  standard output is not JSON, the result is a success exactly when the exit status is 0
  and the lower-cased output contains neither \<open>error\<close> nor \<open>panic\<close>. \<open>run_transaction\<close>
  parses no structured response: its result is a success exactly when the exit status is 0
  and the lower-cased output contains none of \<open>error:\<close>, \<open>panic\<close> and \<open>revert\<close>.
\<close>

theorem outcome_classification:
  "(json_loads so = Inr (JDict d) \<longrightarrow>
      run_flow_tx json_loads py_str (code, so, se) =
        (if dict_get d ''status'' JNull \<noteq> JStr ''SEALED'' \<and>
            dict_get d ''statusString'' JNull \<noteq> JStr ''SEALED'' \<and>
            truthy (dict_get d ''error'' (dict_get d ''errorMessage'' (JStr [])))
         then Inr (False, py_str (dict_get d ''error'' (dict_get d ''errorMessage'' (JStr []))))
         else Inr (True, so))) \<and>
   (json_loads so = Inl JSONDecodeError \<longrightarrow>
      run_flow_tx json_loads py_str (code, so, se) =
        Inr (code = 0 \<and> \<not> contains ''error'' (lower (so @ se)) \<and>
               \<not> contains ''panic'' (lower (so @ se)),
             so @ se)) \<and>
   (run_transaction parse_tx_id (Inr (code, so, se)) rep = Inr r \<longrightarrow>
      success r = (code = 0 \<and> \<not> contains ''error:'' (lower (so @ se)) \<and>
                   \<not> contains ''panic'' (lower (so @ se)) \<and>
                   \<not> contains ''revert'' (lower (so @ se))))"
proof -
  have structured: "json_loads so = Inr (JDict d) \<longrightarrow>
      run_flow_tx json_loads py_str (code, so, se) =
        (if dict_get d ''status'' JNull \<noteq> JStr ''SEALED'' \<and>
            dict_get d ''statusString'' JNull \<noteq> JStr ''SEALED'' \<and>
            truthy (dict_get d ''error'' (dict_get d ''errorMessage'' (JStr [])))
         then Inr (False, py_str (dict_get d ''error'' (dict_get d ''errorMessage'' (JStr []))))
         else Inr (True, so))"
    by (simp add: run_flow_tx_def Let_def)
  have raw: "json_loads so = Inl JSONDecodeError \<longrightarrow>
      run_flow_tx json_loads py_str (code, so, se) =
        Inr (code = 0 \<and> \<not> contains ''error'' (lower (so @ se)) \<and>
               \<not> contains ''panic'' (lower (so @ se)),
             so @ se)"
    by (simp add: run_flow_tx_def Let_def)
  have plain: "run_transaction parse_tx_id (Inr (code, so, se)) rep = Inr r \<longrightarrow>
      success r = (code = 0 \<and> \<not> contains ''error:'' (lower (so @ se)) \<and>
                   \<not> contains ''panic'' (lower (so @ se)) \<and>
                   \<not> contains ''revert'' (lower (so @ se)))"
    by (auto simp: run_transaction_def Let_def split: if_splits sum.splits
        dest: contains_error_colon)
  from structured raw plain show ?thesis by blast
qed

theorem outcome_classification_witness:
  \<open>run_flow_tx
     (\<lambda>s. if s = ''{"status": "FAILED", "error": "boom"}''
          then Inr (JDict [(''status'', JStr ''FAILED''), (''error'', JStr ''boom'')])
          else Inl JSONDecodeError)
     (\<lambda>j. case j of JStr m \<Rightarrow> m | _ \<Rightarrow> [])
     (0, ''{"status": "FAILED", "error": "boom"}'', []) = Inr (False, ''boom'') \<and>
   run_flow_tx
     (\<lambda>s. if s = ''{"status": "FAILED", "error": "boom"}''
          then Inr (JDict [(''status'', JStr ''FAILED''), (''error'', JStr ''boom'')])
          else Inl JSONDecodeError)
     (\<lambda>j. case j of JStr m \<Rightarrow> m | _ \<Rightarrow> [])
     (0, ''Transaction ID: ab'', []) = Inr (True, ''Transaction ID: ab'') \<and>
   run_transaction (\<lambda>s. None) (Inr (0, ''ok'', ''Panic'')) (Inr None)
     = Inr \<lparr>success = False, computation = None, tx_id = None,
            tx_output = ''ok'', tx_error = ''Panic''\<rparr>\<close>
  using
    outcome_classification [where
      json_loads = \<open>\<lambda>s. if s = ''{"status": "FAILED", "error": "boom"}''
          then Inr (JDict [(''status'', JStr ''FAILED''), (''error'', JStr ''boom'')])
          else Inl JSONDecodeError\<close>
      and so = \<open>''{"status": "FAILED", "error": "boom"}''\<close>
      and d = \<open>[(''status'', JStr ''FAILED''), (''error'', JStr ''boom'')]\<close>
      and py_str = \<open>\<lambda>j. case j of JStr m \<Rightarrow> m | _ \<Rightarrow> []\<close>
      and code = 0 and se = \<open>[]\<close>]
    outcome_classification [where
      json_loads = \<open>\<lambda>s. if s = ''{"status": "FAILED", "error": "boom"}''
          then Inr (JDict [(''status'', JStr ''FAILED''), (''error'', JStr ''boom'')])
          else Inl JSONDecodeError\<close>
      and so = \<open>''Transaction ID: ab''\<close>
      and py_str = \<open>\<lambda>j. case j of JStr m \<Rightarrow> m | _ \<Rightarrow> []\<close>
      and code = 0 and se = \<open>[]\<close>]
  by (simp add: run_transaction_def dict_get_def lower_def lower_char_def)

section \<open>The batch loops end within their ceiling\<close>

text \<open>
  Each loop is a total function, so it always ends. The lemmas below say how: with a
  result, after at most the ceiling of iterations, or with the exception of one of its own
  calls. They are proved by induction along the recursion of the loop.
\<close>

lemma multi_post_step:
  assumes "int bn < M"
    and "case res of
           Inr (n, cus', x) \<Rightarrow>
             bn + 1 \<le> n \<and> int n \<le> max (int (bn + 1)) M \<and> (x = Completed \<or> x = CeilingExhausted)
         | Inl e \<Rightarrow> (\<exists>k. bn + 1 \<le> k \<and> int k < M \<and> (tx k = Inl e \<or> st k = Inl e))"
  shows "case res of
           Inr (n, cus', x) \<Rightarrow>
             bn \<le> n \<and> int n \<le> max (int bn) M \<and> (x = Completed \<or> x = CeilingExhausted)
         | Inl e \<Rightarrow> (\<exists>k. bn \<le> k \<and> int k < M \<and> (tx k = Inl e \<or> st k = Inl e))"
proof (cases res)
  case (Inl e)
  with assms(2) obtain k where "bn + 1 \<le> k" and "int k < M" and "tx k = Inl e \<or> st k = Inl e"
    by auto
  then have "bn \<le> k \<and> int k < M \<and> (tx k = Inl e \<or> st k = Inl e)" by simp
  with Inl show ?thesis by auto
next
  case (Inr t)
  obtain n cus' x where t: "t = (n, cus', x)" by (cases t) auto
  with Inr assms show ?thesis by auto
qed

lemma batch_loop_multi_outcome:
  "case batch_loop_multi tx st M bn cus of
     Inr (n, cus', x) \<Rightarrow>
       bn \<le> n \<and> int n \<le> max (int bn) M \<and> (x = Completed \<or> x = CeilingExhausted)
   | Inl e \<Rightarrow> (\<exists>k. bn \<le> k \<and> int k < M \<and> (tx k = Inl e \<or> st k = Inl e))"
proof (induction tx st M bn cus rule: batch_loop_multi.induct)
  case (1 tx st M bn cus)
  show ?case
  proof (cases "int bn < M")
    case False
    then have "batch_loop_multi tx st M bn cus = Inr (bn, cus, CeilingExhausted)"
      by (subst batch_loop_multi.simps) simp
    then show ?thesis by simp
  next
    case lt: True
    show ?thesis
    proof (cases "tx bn")
      case (Inl e)
      with lt have "batch_loop_multi tx st M bn cus = Inl e"
        by (subst batch_loop_multi.simps) simp
      with lt Inl show ?thesis by auto
    next
      case r: (Inr r)
      show ?thesis
      proof (cases "st bn")
        case (Inl e)
        with lt r have "batch_loop_multi tx st M bn cus = Inl e"
          by (subst batch_loop_multi.simps) simp
        with lt Inl show ?thesis by auto
      next
        case b: (Inr b)
        show ?thesis
        proof (cases b)
          case True
          with lt r b have "\<exists>cus'. batch_loop_multi tx st M bn cus = Inr (bn + 1, cus', Completed)"
            by (subst batch_loop_multi.simps) simp
          with lt show ?thesis by auto
        next
          case False
          with lt r b have step: "batch_loop_multi tx st M bn cus =
              batch_loop_multi tx st M (bn + 1)
                (case computation r of None \<Rightarrow> cus
                 | Some c \<Rightarrow> if c \<noteq> 0 then cus @ [c] else cus)"
            by (subst batch_loop_multi.simps) simp
          from lt "1.IH" [OF lt r b False] show ?thesis
            unfolding step by (rule multi_post_step)
        qed
      qed
    qed
  qed
qed


lemma full_post_step:
  assumes "int bn < M"
    and "case res of
           Inr (comps', n, t, x) \<Rightarrow>
             bn + 1 \<le> n \<and> int n \<le> max (int (bn + 1)) M \<and>
             (x = Completed \<or> x = OperationFailed \<or> x = CeilingExhausted)
         | Inl e \<Rightarrow> (\<exists>k. bn + 1 \<le> k \<and> int k < M \<and> (ex k = Inl e \<or> st k = Inl e))"
  shows "case res of
           Inr (comps', n, t, x) \<Rightarrow>
             bn \<le> n \<and> int n \<le> max (int bn) M \<and>
             (x = Completed \<or> x = OperationFailed \<or> x = CeilingExhausted)
         | Inl e \<Rightarrow> (\<exists>k. bn \<le> k \<and> int k < M \<and> (ex k = Inl e \<or> st k = Inl e))"
proof (cases res)
  case (Inl e)
  with assms(2) obtain k where "bn + 1 \<le> k" and "int k < M" and "ex k = Inl e \<or> st k = Inl e"
    by auto
  then have "bn \<le> k \<and> int k < M \<and> (ex k = Inl e \<or> st k = Inl e)" by simp
  with Inl show ?thesis by auto
next
  case (Inr q)
  obtain comps' n t x where "q = (comps', n, t, x)" by (cases q) auto
  with Inr assms show ?thesis by auto
qed

lemma batch_loop_full_outcome:
  "case batch_loop_full ex st M bn comps t0 of
     Inr (comps', n, t, x) \<Rightarrow>
       bn \<le> n \<and> int n \<le> max (int bn) M \<and>
       (x = Completed \<or> x = OperationFailed \<or> x = CeilingExhausted)
   | Inl e \<Rightarrow> (\<exists>k. bn \<le> k \<and> int k < M \<and> (ex k = Inl e \<or> st k = Inl e))"
proof (induction ex st M bn comps t0 rule: batch_loop_full.induct)
  case (1 ex st M bn comps t0)
  show ?case
  proof (cases "int bn < M")
    case False
    then have "batch_loop_full ex st M bn comps t0 = Inr (comps, bn, t0, CeilingExhausted)"
      by (subst batch_loop_full.simps) simp
    then show ?thesis by simp
  next
    case lt: True
    show ?thesis
    proof (cases "ex bn")
      case (Inl e)
      with lt have "batch_loop_full ex st M bn comps t0 = Inl e"
        by (subst batch_loop_full.simps) simp
      with lt Inl show ?thesis by auto
    next
      case r: (Inr r)
      show ?thesis
      proof (cases "cr_success r")
        case False
        with lt r have "batch_loop_full ex st M bn comps t0
            = Inr (comps, bn + 1, t0, OperationFailed)"
          by (subst batch_loop_full.simps) simp
        with lt show ?thesis by auto
      next
        case ok: True
        then have nn: "\<not> \<not> cr_success r" by simp
        show ?thesis
        proof (cases "st bn")
          case (Inl e)
          with lt r ok have "batch_loop_full ex st M bn comps t0 = Inl e"
            by (subst batch_loop_full.simps) simp
          with lt Inl show ?thesis by auto
        next
          case b: (Inr b)
          show ?thesis
          proof (cases b)
            case True
            with lt r ok b have "batch_loop_full ex st M bn comps t0
                = Inr (comps @ [cr_computation r], bn + 1, t0 + cr_computation r, Completed)"
              by (subst batch_loop_full.simps) simp
            with lt show ?thesis by auto
          next
            case False
            with lt r ok b have step: "batch_loop_full ex st M bn comps t0 =
                batch_loop_full ex st M (bn + 1) (comps @ [cr_computation r])
                  (t0 + cr_computation r)"
              by (subst batch_loop_full.simps) simp
            from lt "1.IH" [OF lt r nn b False] show ?thesis
              unfolding step by (rule full_post_step)
          qed
        qed
      qed
    qed
  qed
qed

lemma lazy_post_step:
  assumes "i < 100"
    and "case res of
           Inr (v, n, c, x) \<Rightarrow> i + 1 \<le> n \<and> n \<le> max (i + 1) 100
         | Inl e \<Rightarrow> (\<exists>k. i + 1 \<le> k \<and> k < 100 \<and> lz k = Inl e)"
  shows "case res of
           Inr (v, n, c, x) \<Rightarrow> i \<le> n \<and> n \<le> max i (100::nat)
         | Inl e \<Rightarrow> (\<exists>k. i \<le> k \<and> k < 100 \<and> lz k = Inl e)"
proof (cases res)
  case (Inl e)
  with assms(2) obtain k where "i + 1 \<le> k" and "k < 100" and "lz k = Inl e"
    by auto
  then have "i \<le> k \<and> k < 100 \<and> lz k = Inl e" by simp
  with Inl show ?thesis by auto
next
  case (Inr q)
  obtain v n c x where "q = (v, n, c, x)" by (cases q) auto
  with Inr assms show ?thesis by auto
qed

lemma lazy_batch_loop_outcome:
  "case lazy_batch_loop lz i t0 c0 of
     Inr (v, n, c, x) \<Rightarrow> i \<le> n \<and> n \<le> max i 100
   | Inl e \<Rightarrow> (\<exists>k. i \<le> k \<and> k < 100 \<and> lz k = Inl e)"
proof (induction lz i t0 c0 rule: lazy_batch_loop.induct)
  case (1 lz i t0 c0)
  show ?case
  proof (cases "i < 100")
    case False
    then have "lazy_batch_loop lz i t0 c0 = Inr (Some t0, i, c0, CeilingExhausted)"
      by (subst lazy_batch_loop.simps) simp
    then show ?thesis by simp
  next
    case lt: True
    show ?thesis
    proof (cases "lz i")
      case (Inl e)
      with lt have "lazy_batch_loop lz i t0 c0 = Inl e"
        by (subst lazy_batch_loop.simps) simp
      with lt Inl show ?thesis by auto
    next
      case (Inr trip)
      then obtain ok out bc where r: "lz i = Inr (ok, out, bc)"
        by (cases trip) auto
      show ?thesis
      proof (cases "ok \<and> \<not> remaining_zero out")
        case False
        with lt r have "\<exists>v c x. lazy_batch_loop lz i t0 c0 = Inr (v, i + 1, c, x)"
          by (subst lazy_batch_loop.simps) auto
        with lt show ?thesis by auto
      next
        case True
        with lt r have step: "lazy_batch_loop lz i t0 c0 =
            lazy_batch_loop lz (i + 1) (t0 + bc) (c0 + 1)"
          by (subst lazy_batch_loop.simps) simp
        from True have ok: "\<not> \<not> ok" and nz: "\<not> remaining_zero out" by simp_all
        from lt "1.IH" [OF lt r refl refl ok nz] show ?thesis
          unfolding step by (rule lazy_post_step)
      qed
    qed
  qed
qed

text \<open>
  C2, as the claim states it, fails at batch size 0: \<open>user_count // batch_size\<close>, the first
  statement of the phase in \<open>run_multi_user_benchmark\<close> and in \<open>run_full_draw_benchmark\<close>,
  raises \<open>ZeroDivisionError\<close>, and nothing handles it.
\<close>

theorem zero_batch_size_raises:
  "process_batches_multi
     (\<lambda>k. Inr \<lparr>success = True, computation = Some 100, tx_id = Some ''ab'',
               tx_output = [], tx_error = []\<rparr>)
     (\<lambda>k. Inr True) 100 0 = Inl ZeroDivisionError \<and>
   process_batches_full
     (\<lambda>k. Inr \<lparr>tx_name = [], cr_success = True, cr_computation = 100, cr_memory = 0,
               cr_tx_id = ''ab'', cr_error = None\<rparr>)
     (\<lambda>k. Inr True) 100 0 = Inl ZeroDivisionError"
  by (simp add: process_batches_multi_def process_batches_full_def py_floordiv_def)

text \<open>
  C2, amended. For every batch size other than 0, every participant count and every
  behaviour of the operation and status calls, each batch loop ends, in one of two ways.
  Either it ends with a result, after at most its ceiling of batch operations
  (\<open>user_count // batch_size + 10\<close> in \<open>run_multi_user_benchmark\<close>,
  \<open>user_count // batch_size + 5\<close> in \<open>run_full_draw_benchmark\<close>, 100 in
  \<open>benchmark_process_draw_batch\<close>, whatever the batch size), left through the completion
  test, an operation failure or the exhausted ceiling. Or it ends with the exception that
  one of its own calls raised within the ceiling, which the phase does not handle.
\<close>

theorem batch_loops_bounded:
  "(batch \<noteq> 0 \<longrightarrow>
      (case process_batches_multi tx st users batch of
         Inr (n, cus, x) \<Rightarrow>
           int n \<le> max 0 (users div batch + 10) \<and> (x = Completed \<or> x = CeilingExhausted)
       | Inl e \<Rightarrow> (\<exists>k. int k < users div batch + 10 \<and> (tx k = Inl e \<or> st k = Inl e)))) \<and>
   (batch \<noteq> 0 \<longrightarrow>
      (case process_batches_full ex st users batch of
         Inr (comps, n, t, x) \<Rightarrow>
           int n \<le> max 0 (users div batch + 5) \<and>
           (x = Completed \<or> x = OperationFailed \<or> x = CeilingExhausted)
       | Inl e \<Rightarrow> (\<exists>k. int k < users div batch + 5 \<and> (ex k = Inl e \<or> st k = Inl e)))) \<and>
   (case lazy_batch_loop lz 0 0 0 of
      Inr (v, n, c, x) \<Rightarrow> n \<le> 100
    | Inl e \<Rightarrow> (\<exists>k. k < 100 \<and> lz k = Inl e))"
proof -
  have multi: "case batch_loop_multi tx st (users div batch + 10) 0 [] of
         Inr (n, cus, x) \<Rightarrow>
           int n \<le> max 0 (users div batch + 10) \<and> (x = Completed \<or> x = CeilingExhausted)
       | Inl e \<Rightarrow> (\<exists>k. int k < users div batch + 10 \<and> (tx k = Inl e \<or> st k = Inl e))"
    using batch_loop_multi_outcome [where tx = tx and st = st and M = "users div batch + 10" and bn = 0 and cus = "[]"]
    by (auto split: sum.splits)
  have full: "case batch_loop_full ex st (users div batch + 5) 0 [] 0 of
         Inr (comps, n, t, x) \<Rightarrow>
           int n \<le> max 0 (users div batch + 5) \<and>
           (x = Completed \<or> x = OperationFailed \<or> x = CeilingExhausted)
       | Inl e \<Rightarrow> (\<exists>k. int k < users div batch + 5 \<and> (ex k = Inl e \<or> st k = Inl e))"
    using batch_loop_full_outcome [where ex = ex and st = st and M = "users div batch + 5" and bn = 0 and comps = "[]" and ?t0.0 = 0]
    by (auto split: sum.splits)
  have lazy: "case lazy_batch_loop lz 0 0 0 of
      Inr (v, n, c, x) \<Rightarrow> n \<le> 100
    | Inl e \<Rightarrow> (\<exists>k. k < 100 \<and> lz k = Inl e)"
    using lazy_batch_loop_outcome [where lz = lz and i = 0 and ?t0.0 = 0 and ?c0.0 = 0]
    by (auto split: sum.splits)
  from multi full lazy show ?thesis
    by (simp add: process_batches_multi_def process_batches_full_def py_floordiv_def)
qed

theorem batch_loops_bounded_witness:
  "process_batches_multi
     (\<lambda>k. Inr \<lparr>success = True, computation = Some 100, tx_id = Some ''ab'',
               tx_output = [], tx_error = []\<rparr>)
     (\<lambda>k. Inr (2 \<le> k)) 120 50 = Inr (3, [100, 100, 100], Completed) \<and>
   process_batches_full
     (\<lambda>k. Inr \<lparr>tx_name = [], cr_success = True, cr_computation = 100, cr_memory = 0,
               cr_tx_id = ''ab'', cr_error = None\<rparr>)
     (\<lambda>k. Inr (2 \<le> k)) 120 50 = Inr ([100, 100, 100], 3, 300, Completed) \<and>
   lazy_batch_loop (\<lambda>k. Inr (True, ''remaining: 0'', 100)) 0 0 0 = Inr (Some 100, 1, 1, Completed)"
  using batch_loops_bounded [where batch = 50 and users = 120
      and tx = "\<lambda>k. Inr \<lparr>success = True, computation = Some 100, tx_id = Some ''ab'',
               tx_output = [], tx_error = []\<rparr>"
      and st = "\<lambda>k. Inr (2 \<le> k)"
      and ex = "\<lambda>k. Inr \<lparr>tx_name = [], cr_success = True, cr_computation = 100, cr_memory = 0,
               cr_tx_id = ''ab'', cr_error = None\<rparr>"
      and lz = "\<lambda>k. Inr (True, ''remaining: 0'', 100)"]
  by (simp add: process_batches_multi_def process_batches_full_def py_floordiv_def
      batch_loop_multi.simps batch_loop_full.simps lazy_batch_loop.simps
      remaining_zero_def lower_def lower_char_def)

section \<open>The number of batch iterations\<close>

lemma batch_loop_multi_completes_at:
  assumes "\<forall>k\<le>m. \<exists>r. tx k = Inr r" and "\<forall>k<m. st k = Inr False" and "st m = Inr True"
    and "int m < M" and "bn \<le> m"
  shows "\<exists>cus'. batch_loop_multi tx st M bn cus = Inr (m + 1, cus', Completed)"
  using assms(5)
proof (induction "m - bn" arbitrary: bn cus)
  case 0
  then have "bn = m" by simp
  obtain r where "tx m = Inr r" using assms(1) by blast
  with assms(3,4) \<open>bn = m\<close> show ?case
    by (subst batch_loop_multi.simps) simp
next
  case (Suc d)
  then have lt: "bn < m" by simp
  obtain r where r: "tx bn = Inr r" using assms(1) Suc.prems by blast
  have s: "st bn = Inr False" using assms(2) lt by blast
  have "d = m - (bn + 1)" using Suc.hyps(2) by simp
  from Suc.hyps(1) [OF this] lt
  obtain cus' where "batch_loop_multi tx st M (bn + 1)
      (case computation r of None \<Rightarrow> cus | Some c \<Rightarrow> if c \<noteq> 0 then cus @ [c] else cus)
      = Inr (m + 1, cus', Completed)"
    by fastforce
  with r s lt assms(4) show ?case
    by (subst batch_loop_multi.simps) auto
qed

lemma batch_loop_full_completes_at:
  assumes "\<forall>k\<le>m. \<exists>r. ex k = Inr r \<and> cr_success r" and "\<forall>k<m. st k = Inr False"
    and "st m = Inr True" and "int m < M" and "bn \<le> m"
  shows "\<exists>comps' t. batch_loop_full ex st M bn comps t0 = Inr (comps', m + 1, t, Completed)"
  using assms(5)
proof (induction "m - bn" arbitrary: bn comps t0)
  case 0
  then have "bn = m" by simp
  obtain r where "ex m = Inr r" and "cr_success r" using assms(1) by blast
  with assms(3,4) \<open>bn = m\<close> show ?case
    by (subst batch_loop_full.simps) simp
next
  case (Suc d)
  then have lt: "bn < m" by simp
  obtain r where r: "ex bn = Inr r" and ok: "cr_success r" using assms(1) Suc.prems by blast
  have s: "st bn = Inr False" using assms(2) lt by blast
  have "d = m - (bn + 1)" using Suc.hyps(2) by simp
  from Suc.hyps(1) [OF this] lt
  obtain comps' t where "batch_loop_full ex st M (bn + 1) (comps @ [cr_computation r])
      (t0 + cr_computation r) = Inr (comps', m + 1, t, Completed)"
    by fastforce
  with r ok s lt assms(4) show ?case
    by (subst batch_loop_full.simps) auto
qed

lemma ceiling_quotient_le_iff:
  fixes a b j :: int
  assumes "0 < b"
  shows "(\<lceil>(of_int a :: rat) / of_int b\<rceil> \<le> j) = (a \<le> j * b)"
proof -
  have "(\<lceil>(of_int a :: rat) / of_int b\<rceil> \<le> j) = ((of_int a :: rat) / of_int b \<le> of_int j)"
    by (rule ceiling_le_iff)
  also have "\<dots> = ((of_int a :: rat) \<le> of_int j * of_int b)"
    using assms by (simp add: pos_divide_le_eq)
  also have "\<dots> = (a \<le> j * b)"
    by (simp only: of_int_mult [symmetric] of_int_le_iff)
  finally show ?thesis .
qed

lemma ceiling_quotient_le_floor_succ:
  fixes a b :: int
  assumes "0 < b"
  shows "\<lceil>(of_int a :: rat) / of_int b\<rceil> \<le> a div b + 1"
proof -
  have e: "(a div b) * b + a mod b = a" by simp
  have l: "a mod b < b" using assms by simp
  have d: "(a div b + 1) * b = (a div b) * b + b" by (simp add: algebra_simps)
  from e l have "a \<le> (a div b) * b + b" by linarith
  with d have "a \<le> (a div b + 1) * b" by simp
  then show ?thesis using assms by (simp only: ceiling_quotient_le_iff)
qed

text \<open>
  C6, as the claim states it, fails without participants: the operation is issued before
  the predicate is first asked, so the loop performs one iteration where
  \<open>ceil(0 / 50)\<close> is 0.
\<close>

theorem no_participants_one_iteration:
  "process_batches_multi
     (\<lambda>k. Inr \<lparr>success = True, computation = Some 100, tx_id = Some ''ab'',
               tx_output = [], tx_error = []\<rparr>)
     (\<lambda>k. Inr (0 \<le> (int k + 1) * 50)) 0 50 = Inr (1, [100], Completed) \<and>
   process_batches_full
     (\<lambda>k. Inr \<lparr>tx_name = [], cr_success = True, cr_computation = 100, cr_memory = 0,
               cr_tx_id = ''ab'', cr_error = None\<rparr>)
     (\<lambda>k. Inr (0 \<le> (int k + 1) * 50)) 0 50 = Inr ([100], 1, 100, Completed) \<and>
   \<lceil>(of_int 0 :: rat) / of_int 50\<rceil> = 0"
  by (simp add: process_batches_multi_def process_batches_full_def py_floordiv_def
      batch_loop_multi.simps batch_loop_full.simps)

text \<open>
  C6, amended. Let the batch size be at least 1, let every operation succeed, and let the
  completion predicate be true after iteration \<open>k\<close> exactly when \<open>k\<close> batches cover all
  participants. Then the loops of \<open>run_multi_user_benchmark\<close> and of
  \<open>run_full_draw_benchmark\<close> end through the completion test after exactly
  \<open>max(1, ceil(participants / batch size))\<close> iterations: \<open>ceil(participants / batch size)\<close>
  for at least one participant (one iteration for 50 participants in batches of 50, three
  for 120), and one iteration for none.
\<close>

theorem batch_iterations_exact:
  "0 \<le> users \<and> 1 \<le> batch \<and>
   (\<forall>k. \<exists>r. tx k = Inr r) \<and>
   (\<forall>k. \<exists>r. ex k = Inr r \<and> cr_success r) \<and>
   (\<forall>k. st k = Inr (users \<le> (int k + 1) * batch)) \<longrightarrow>
     (\<exists>cus. process_batches_multi tx st users batch =
        Inr (nat (max 1 \<lceil>(of_int users :: rat) / of_int batch\<rceil>), cus, Completed)) \<and>
     (\<exists>comps t. process_batches_full ex st users batch =
        Inr (comps, nat (max 1 \<lceil>(of_int users :: rat) / of_int batch\<rceil>), t, Completed))"
proof (intro impI, elim conjE)
  assume users: "0 \<le> users" and batch: "1 \<le> batch"
    and tx: "\<forall>k. \<exists>r. tx k = Inr r"
    and ex: "\<forall>k. \<exists>r. ex k = Inr r \<and> cr_success r"
    and st: "\<forall>k. st k = Inr (users \<le> (int k + 1) * batch)"
  define c where "c = \<lceil>(of_int users :: rat) / of_int batch\<rceil>"
  define m where "m = nat (max 1 c) - 1"
  have pos: "0 < batch" using batch by simp
  have m1: "int m + 1 = max 1 c" by (simp add: m_def)
  have iff: "(c \<le> j) = (users \<le> j * batch)" for j
    unfolding c_def using pos by (rule ceiling_quotient_le_iff)
  have before: "\<forall>k<m. st k = Inr False"
  proof (intro allI impI)
    fix k assume "k < m"
    then have "int k + 1 < max 1 c" using m1 by linarith
    then have "\<not> c \<le> int k + 1" by simp
    with iff [of "int k + 1"] have "\<not> users \<le> (int k + 1) * batch" by blast
    with st show "st k = Inr False" by simp
  qed
  have "c \<le> int m + 1" using m1 by simp
  with iff [of "int m + 1"] have "users \<le> (int m + 1) * batch" by blast
  with st have at: "st m = Inr True" by simp
  have "c \<le> users div batch + 1"
    unfolding c_def using pos by (rule ceiling_quotient_le_floor_succ)
  moreover have "0 \<le> users div batch"
    using users pos by (simp add: pos_imp_zdiv_nonneg_iff)
  ultimately have bound: "int m + 1 \<le> users div batch + 1" using m1 by simp
  then have b10: "int m < users div batch + 10" and b5: "int m < users div batch + 5"
    by simp_all
  have nz: "batch \<noteq> 0" using pos by simp
  have n: "nat (max 1 c) = m + 1" using m1 by linarith
  from tx have tx': "\<forall>k\<le>m. \<exists>r. tx k = Inr r" by simp
  from ex have ex': "\<forall>k\<le>m. \<exists>r. ex k = Inr r \<and> cr_success r" by simp
  have "\<exists>cus. batch_loop_multi tx st (users div batch + 10) 0 [] = Inr (m + 1, cus, Completed)"
    using tx' before at b10 by (rule batch_loop_multi_completes_at) simp
  then have multi: "\<exists>cus. process_batches_multi tx st users batch =
        Inr (nat (max 1 c), cus, Completed)"
    using nz n by (simp add: process_batches_multi_def py_floordiv_def)
  have "\<exists>comps t. batch_loop_full ex st (users div batch + 5) 0 [] 0
      = Inr (comps, m + 1, t, Completed)"
    using ex' before at b5 by (rule batch_loop_full_completes_at) simp
  then have full: "\<exists>comps t. process_batches_full ex st users batch =
        Inr (comps, nat (max 1 c), t, Completed)"
    using nz n by (simp add: process_batches_full_def py_floordiv_def)
  from multi full show "(\<exists>cus. process_batches_multi tx st users batch =
        Inr (nat (max 1 \<lceil>(of_int users :: rat) / of_int batch\<rceil>), cus, Completed)) \<and>
     (\<exists>comps t. process_batches_full ex st users batch =
        Inr (comps, nat (max 1 \<lceil>(of_int users :: rat) / of_int batch\<rceil>), t, Completed))"
    unfolding c_def by simp
qed

theorem batch_iterations_exact_witness:
  "process_batches_multi
     (\<lambda>k. Inr \<lparr>success = True, computation = Some 100, tx_id = Some ''ab'',
               tx_output = [], tx_error = []\<rparr>)
     (\<lambda>k. Inr (50 \<le> (int k + 1) * 50)) 50 50 = Inr (1, [100], Completed) \<and>
   process_batches_full
     (\<lambda>k. Inr \<lparr>tx_name = [], cr_success = True, cr_computation = 100, cr_memory = 0,
               cr_tx_id = ''ab'', cr_error = None\<rparr>)
     (\<lambda>k. Inr (50 \<le> (int k + 1) * 50)) 50 50 = Inr ([100], 1, 100, Completed) \<and>
   process_batches_multi
     (\<lambda>k. Inr \<lparr>success = True, computation = Some 100, tx_id = Some ''ab'',
               tx_output = [], tx_error = []\<rparr>)
     (\<lambda>k. Inr (120 \<le> (int k + 1) * 50)) 120 50 = Inr (3, [100, 100, 100], Completed) \<and>
   process_batches_full
     (\<lambda>k. Inr \<lparr>tx_name = [], cr_success = True, cr_computation = 100, cr_memory = 0,
               cr_tx_id = ''ab'', cr_error = None\<rparr>)
     (\<lambda>k. Inr (120 \<le> (int k + 1) * 50)) 120 50 = Inr ([100, 100, 100], 3, 300, Completed) \<and>
   nat (max 1 \<lceil>(of_int 50 :: rat) / of_int 50\<rceil>) = 1 \<and>
   nat (max 1 \<lceil>(of_int 120 :: rat) / of_int 50\<rceil>) = 3"
  using
    batch_iterations_exact [where users = 50 and batch = 50
      and tx = "\<lambda>k. Inr \<lparr>success = True, computation = Some 100, tx_id = Some ''ab'',
               tx_output = [], tx_error = []\<rparr>"
      and ex = "\<lambda>k. Inr \<lparr>tx_name = [], cr_success = True, cr_computation = 100, cr_memory = 0,
               cr_tx_id = ''ab'', cr_error = None\<rparr>"
      and st = "\<lambda>k. Inr (50 \<le> (int k + 1) * 50)"]
    batch_iterations_exact [where users = 120 and batch = 50
      and tx = "\<lambda>k. Inr \<lparr>success = True, computation = Some 100, tx_id = Some ''ab'',
               tx_output = [], tx_error = []\<rparr>"
      and ex = "\<lambda>k. Inr \<lparr>tx_name = [], cr_success = True, cr_computation = 100, cr_memory = 0,
               cr_tx_id = ''ab'', cr_error = None\<rparr>"
      and st = "\<lambda>k. Inr (120 \<le> (int k + 1) * 50)"]
  by (simp add: process_batches_multi_def process_batches_full_def py_floordiv_def
      batch_loop_multi.simps batch_loop_full.simps)

section \<open>Operation failures in the batch phase\<close>




section \<open>The limit estimate\<close>












section \<open>Failed probes\<close>





section \<open>What the variability analyses report\<close>

lemma fold_min_Min: "fold min xs (x :: int) = Min (set (x # xs))"
  by (simp only: Min.set_eq_fold)

lemma fold_max_Max: "fold max xs (x :: int) = Max (set (x # xs))"
  by (simp only: Max.set_eq_fold)

lemma high_count_positive:
  "(length (filter P cs) > 0) = (\<exists>c\<in>set cs. P c)"
  by (simp add: filter_empty_conv)

text \<open>
  C4, as the claim states it, fails. For the costs 0 and 100 the ratio \<open>max / max(min, 1)\<close>
  is 100, above 2. The analysis in \<open>main\<close> reports the ratio 0 and the message for a stable
  computation, since it divides by the minimum only when the minimum is positive;
  \<open>print_variability_summary\<close> reports the ratio 100 and gives no warning, since it warns
  on costs above 5000 and has no threshold on the ratio. For a single cost the analysis in
  \<open>main\<close> does not run.
\<close>

theorem stable_flag_on_zero_minimum:
  "variability_analysis [0, 100]
     = Some \<lparr>min_comp = 0, max_comp = 100, avg_comp = 50, variance_ratio = 0,
             high_variance = False\<rparr> \<and>
   print_variability_summary [0, 100]
     = Some \<lparr>stat_min = 0, stat_max = 100, stat_mean = 50, stat_range = 100,
             stat_ratio = 100, low_count = 2, high_count = 0, warned = False\<rparr> \<and>
   (of_int 100 :: rat) / of_int (max 0 1) > 2 \<and>
   variability_analysis [320] = None"
  by (simp add: variability_analysis_def print_variability_summary_def)

text \<open>
  C4, amended. For two costs or more, the analysis in \<open>main\<close> reports the minimum, the
  maximum, the mean and the ratio \<open>max / min\<close> when the minimum is positive and 0
  otherwise, and flags high variance exactly when that ratio exceeds 2; for fewer costs it
  reports nothing. For every non-empty sequence, \<open>print_variability_summary\<close> reports the
  minimum, the maximum, the mean, the range and the ratio \<open>max / max(min, 1)\<close>, and warns
  exactly when some cost exceeds 5000. For the costs 320, 340, 9500, 330, 335 both report
  the ratio 9500 / 320, about 29.7, and both flag.
\<close>

theorem variability_reports:
  "(2 \<le> length cs \<longrightarrow>
      variability_analysis cs =
        Some \<lparr>min_comp = Min (set cs), max_comp = Max (set cs),
              avg_comp = of_int (sum_list cs) / of_nat (length cs),
              variance_ratio =
                (if Min (set cs) > 0 then of_int (Max (set cs)) / of_int (Min (set cs)) else 0),
              high_variance =
                ((if Min (set cs) > 0 then of_int (Max (set cs)) / of_int (Min (set cs)) else 0)
                  > (2 :: rat))\<rparr>) \<and>
   (length cs \<le> 1 \<longrightarrow> variability_analysis cs = None) \<and>
   (cs \<noteq> [] \<longrightarrow>
      print_variability_summary cs =
        Some \<lparr>stat_min = Min (set cs), stat_max = Max (set cs),
              stat_mean = of_int (sum_list cs) / of_nat (length cs),
              stat_range = Max (set cs) - Min (set cs),
              stat_ratio = of_int (Max (set cs)) / of_int (max (Min (set cs)) 1),
              low_count = length (filter (\<lambda>c. c < 1000) cs),
              high_count = length (filter (\<lambda>c. c > 5000) cs),
              warned = (\<exists>c\<in>set cs. c > 5000)\<rparr>)"
proof (cases cs)
  case Nil
  then show ?thesis by (simp add: variability_analysis_def)
next
  case (Cons x xs)
  have lo: "fold min xs x = Min (set cs)" and hi: "fold max xs x = Max (set cs)"
    unfolding Cons by (rule fold_min_Min, rule fold_max_Max)
  have w: "(length (filter (\<lambda>c. c > 5000) cs) > 0) = (\<exists>c\<in>set cs. c > 5000)"
    by (rule high_count_positive)
  have main: "2 \<le> length cs \<longrightarrow>
      variability_analysis cs =
        Some \<lparr>min_comp = Min (set cs), max_comp = Max (set cs),
              avg_comp = of_int (sum_list cs) / of_nat (length cs),
              variance_ratio =
                (if Min (set cs) > 0 then of_int (Max (set cs)) / of_int (Min (set cs)) else 0),
              high_variance =
                ((if Min (set cs) > 0 then of_int (Max (set cs)) / of_int (Min (set cs)) else 0)
                  > (2 :: rat))\<rparr>"
    unfolding variability_analysis_def lo [symmetric] hi [symmetric]
    by (simp add: Cons Let_def)
  have one: "length cs \<le> 1 \<longrightarrow> variability_analysis cs = None"
    by (simp add: variability_analysis_def Cons)
  have summary: "cs \<noteq> [] \<longrightarrow>
      print_variability_summary cs =
        Some \<lparr>stat_min = Min (set cs), stat_max = Max (set cs),
              stat_mean = of_int (sum_list cs) / of_nat (length cs),
              stat_range = Max (set cs) - Min (set cs),
              stat_ratio = of_int (Max (set cs)) / of_int (max (Min (set cs)) 1),
              low_count = length (filter (\<lambda>c. c < 1000) cs),
              high_count = length (filter (\<lambda>c. c > 5000) cs),
              warned = (\<exists>c\<in>set cs. c > 5000)\<rparr>"
    unfolding print_variability_summary_def lo [symmetric] hi [symmetric] w [symmetric]
    by (simp add: Cons)
  from main one summary show ?thesis by blast
qed

theorem variability_reports_witness:
  "variability_analysis [320, 340, 9500, 330, 335]
     = Some \<lparr>min_comp = 320, max_comp = 9500, avg_comp = 2165, variance_ratio = 9500 / 320,
             high_variance = True\<rparr> \<and>
   print_variability_summary [320, 340, 9500, 330, 335]
     = Some \<lparr>stat_min = 320, stat_max = 9500, stat_mean = 2165, stat_range = 9180,
             stat_ratio = 9500 / 320, low_count = 4, high_count = 1, warned = True\<rparr> \<and>
   (2965 / 100 :: rat) \<le> 9500 / 320 \<and> (9500 :: rat) / 320 < 2975 / 100"
  using variability_reports [where cs = "[320, 340, 9500, 330, 335]"]
  by (simp add: variability_analysis_def print_variability_summary_def)

end
